theory Spec2Isabelle
  imports Main "HOL-Library.Word" "HOL-Library.Sublist"
begin

section \<open>JavaScript strings\<close>

text \<open>
  A JavaScript string is a sequence of UTF-16 code units; \<open>length\<close> counts code units.
  The bullet U+2022 is one code unit, the emoji prefixes of the classifier are one
  (U+2753, U+2705) or two (surrogate pairs for U+1F518, U+1F4A1, U+1F4DD).
\<close>

type_synonym code_unit = "16 word"
type_synonym jsstring = "code_unit list"

definition js :: "string \<Rightarrow> jsstring" where
  \<comment> \<open>an ASCII literal as a JavaScript string\<close>
  "js s = map of_char s"

definition isWhiteSpace :: "code_unit \<Rightarrow> bool" where
  \<comment> \<open>the class \<open>\s\<close> of a regular expression, which is also what \<open>trim()\<close> strips:
      WhiteSpace and LineTerminator of ECMAScript\<close>
  "isWhiteSpace c \<longleftrightarrow>
     c = 0x09 \<or> c = 0x0A \<or> c = 0x0B \<or> c = 0x0C \<or> c = 0x0D \<or> c = 0x20 \<or> c = 0xA0 \<or>
     c = 0x1680 \<or> (0x2000 \<le> c \<and> c \<le> 0x200A) \<or> c = 0x2028 \<or> c = 0x2029 \<or>
     c = 0x202F \<or> c = 0x205F \<or> c = 0x3000 \<or> c = 0xFEFF"

definition js_trim :: "jsstring \<Rightarrow> jsstring" where
  \<comment> \<open>\<open>String.prototype.trim\<close>\<close>
  "js_trim s = rev (dropWhile isWhiteSpace (rev (dropWhile isWhiteSpace s)))"

definition isDigit :: "code_unit \<Rightarrow> bool" where
  \<comment> \<open>the class \<open>\d\<close>\<close>
  "isDigit c \<longleftrightarrow> 0x30 \<le> c \<and> c \<le> 0x39"

definition isLineTerminator :: "code_unit \<Rightarrow> bool" where
  "isLineTerminator c \<longleftrightarrow> c = 0x0A \<or> c = 0x0D \<or> c = 0x2028 \<or> c = 0x2029"

definition isDot :: "code_unit \<Rightarrow> bool" where
  \<comment> \<open>the class \<open>.\<close> (no \<open>s\<close> flag): anything but a line terminator\<close>
  "isDot c \<longleftrightarrow> \<not> isLineTerminator c"

definition is_a_to_d :: "code_unit \<Rightarrow> bool" where
  \<comment> \<open>the class \<open>[a-d]\<close>\<close>
  "is_a_to_d c \<longleftrightarrow> 0x61 \<le> c \<and> c \<le> 0x64"

definition is_A_to_D :: "code_unit \<Rightarrow> bool" where
  \<comment> \<open>the class \<open>[A-D]\<close>\<close>
  "is_A_to_D c \<longleftrightarrow> 0x41 \<le> c \<and> c \<le> 0x44"

definition is_A_to_Z :: "code_unit \<Rightarrow> bool" where
  \<comment> \<open>the class \<open>[A-Z]\<close>\<close>
  "is_A_to_Z c \<longleftrightarrow> 0x41 \<le> c \<and> c \<le> 0x5A"

definition ascii_upper :: "code_unit \<Rightarrow> code_unit" where
  \<comment> \<open>Canonicalize of a regular expression with the \<open>i\<close> flag and without the \<open>u\<close> flag,
      as far as a comparison with an ASCII pattern character goes: ASCII letters are
      compared by their upper case, and a code unit from 128 on never canonicalizes to an
      ASCII one, so it stands for itself here.\<close>
  "ascii_upper c = (if 0x61 \<le> c \<and> c \<le> 0x7A then c - 0x20 else c)"

function split_newlines_from :: "jsstring \<Rightarrow> jsstring \<Rightarrow> jsstring list" where
  \<comment> \<open>\<open>cur\<close> is the piece read so far; a line feed ends it and the whole run of line
      feeds is one separator\<close>
  "split_newlines_from cur [] = [cur]"
| "split_newlines_from cur (c # cs) =
     (if c = 0x0A then cur # split_newlines_from [] (dropWhile (\<lambda>c. c = 0x0A) cs)
      else split_newlines_from (cur @ [c]) cs)"
  by pat_completeness auto
termination
  by (relation "measure (\<lambda>(cur, s). length s)") (auto simp: length_dropWhile_le less_Suc_eq_le)

definition js_split_newlines :: "jsstring \<Rightarrow> jsstring list" where
  \<comment> \<open>\<open>text.split(/\n+/)\<close>: the pieces between the maximal runs of line feeds, the
      empty pieces before a leading and after a trailing run included; the empty string
      gives one empty piece\<close>
  "js_split_newlines s = split_newlines_from [] s"

function replace_whitespace_runs :: "jsstring \<Rightarrow> jsstring" where
  \<comment> \<open>\<open>.replace(/\s+/g, ' ')\<close>: every maximal run of white space becomes one space\<close>
  "replace_whitespace_runs [] = []"
| "replace_whitespace_runs (c # cs) =
     (if isWhiteSpace c then 0x20 # replace_whitespace_runs (dropWhile isWhiteSpace cs)
      else c # replace_whitespace_runs cs)"
  by pat_completeness auto
termination
  by (relation "measure length") (auto simp: length_dropWhile_le less_Suc_eq_le)

fun js_replace_first :: "jsstring \<Rightarrow> jsstring \<Rightarrow> jsstring" where
  \<comment> \<open>\<open>s.replace(pat, '')\<close> with a string pattern: the first occurrence of \<open>pat\<close> is
      removed, and \<open>s\<close> is unchanged when there is none\<close>
  "js_replace_first pat [] = []"
| "js_replace_first pat (c # cs) =
     (if take (length pat) (c # cs) = pat then drop (length pat) (c # cs)
      else c # js_replace_first pat cs)"

section \<open>Regular expressions\<close>

text \<open>
  A pattern is written as its matcher in continuation style, as ECMAScript defines the
  semantics of a pattern: a matcher takes the continuation for what follows and the rest
  of the input, and the first alternative whose continuation succeeds wins. A greedy
  quantifier tries the longer match first, a lazy one the shorter; every quantifier of
  the patterns below is over a single character class.
\<close>

type_synonym 'a cont = "jsstring \<Rightarrow> 'a option"

definition rx_class :: "(code_unit \<Rightarrow> bool) \<Rightarrow> 'a cont \<Rightarrow> 'a cont" where
  "rx_class P k s = (case s of [] \<Rightarrow> None | c # cs \<Rightarrow> if P c then k cs else None)"

primrec rx_star :: "(code_unit \<Rightarrow> bool) \<Rightarrow> 'a cont \<Rightarrow> 'a cont" where
  "rx_star P k [] = k []"
| "rx_star P k (c # cs) =
     (if P c then (case rx_star P k cs of Some r \<Rightarrow> Some r | None \<Rightarrow> k (c # cs))
      else k (c # cs))"

primrec rx_lazy_star :: "(code_unit \<Rightarrow> bool) \<Rightarrow> 'a cont \<Rightarrow> 'a cont" where
  "rx_lazy_star P k [] = k []"
| "rx_lazy_star P k (c # cs) =
     (case k (c # cs) of Some r \<Rightarrow> Some r
      | None \<Rightarrow> if P c then rx_lazy_star P k cs else None)"

definition rx_plus :: "(code_unit \<Rightarrow> bool) \<Rightarrow> 'a cont \<Rightarrow> 'a cont" where
  "rx_plus P k = rx_class P (rx_star P k)"

definition rx_lazy_plus :: "(code_unit \<Rightarrow> bool) \<Rightarrow> 'a cont \<Rightarrow> 'a cont" where
  "rx_lazy_plus P k = rx_class P (rx_lazy_star P k)"

definition rx_opt :: "(code_unit \<Rightarrow> bool) \<Rightarrow> 'a cont \<Rightarrow> 'a cont" where
  "rx_opt P k s = (case rx_class P k s of Some r \<Rightarrow> Some r | None \<Rightarrow> k s)"

definition rx_alt :: "('a cont \<Rightarrow> 'a cont) \<Rightarrow> ('a cont \<Rightarrow> 'a cont) \<Rightarrow> 'a cont \<Rightarrow> 'a cont" where
  "rx_alt m1 m2 k s = (case m1 k s of Some r \<Rightarrow> Some r | None \<Rightarrow> m2 k s)"

definition rx_lit :: "jsstring \<Rightarrow> 'a cont \<Rightarrow> 'a cont" where
  "rx_lit w k s = (if take (length w) s = w then k (drop (length w) s) else None)"

definition rx_lit_i :: "jsstring \<Rightarrow> 'a cont \<Rightarrow> 'a cont" where
  \<comment> \<open>a literal of ASCII characters under the \<open>i\<close> flag\<close>
  "rx_lit_i w k s =
     (if map ascii_upper (take (length w) s) = map ascii_upper w then k (drop (length w) s)
      else None)"

definition rx_end :: "'a cont \<Rightarrow> 'a cont" where
  \<comment> \<open>\<open>$\<close> without the \<open>m\<close> flag\<close>
  "rx_end k s = (if s = [] then k s else None)"

definition rx_look :: "(unit cont \<Rightarrow> unit cont) \<Rightarrow> 'a cont \<Rightarrow> 'a cont" where
  \<comment> \<open>the lookahead \<open>(?=...)\<close>\<close>
  "rx_look m k s = (case m (\<lambda>_. Some ()) s of None \<Rightarrow> None | Some _ \<Rightarrow> k s)"

definition rx_test :: "(unit cont \<Rightarrow> unit cont) \<Rightarrow> jsstring \<Rightarrow> bool" where
  \<comment> \<open>\<open>/^.../.test(s)\<close> for a pattern anchored at the start\<close>
  "rx_test m s \<longleftrightarrow> m (\<lambda>_. Some ()) s \<noteq> None"

primrec rx_search :: "'a cont \<Rightarrow> 'a cont" where
  \<comment> \<open>the first start index at which the pattern matches\<close>
  "rx_search m [] = m []"
| "rx_search m (c # cs) = (case m (c # cs) of Some r \<Rightarrow> Some r | None \<Rightarrow> rx_search m cs)"

section \<open>The classifier of EditorScreen.tsx: chunks between line feeds\<close>

definition question_rx :: "'a cont \<Rightarrow> 'a cont" where
  \<comment> \<open>\<open>/^\d+[\.\)]\s+/\<close>\<close>
  "question_rx k =
     rx_plus isDigit (rx_class (\<lambda>c. c = 0x2E \<or> c = 0x29) (rx_plus isWhiteSpace k))"

definition option_rx :: "'a cont \<Rightarrow> 'a cont" where
  \<comment> \<open>\<open>/^[\<bullet>\-\*]?\s*[\(\[]?[a-dA-D][\)\.\]]\s+/\<close>, the bullet being U+2022\<close>
  "option_rx k =
     rx_opt (\<lambda>c. c = 0x2022 \<or> c = 0x2D \<or> c = 0x2A)
       (rx_star isWhiteSpace
         (rx_opt (\<lambda>c. c = 0x28 \<or> c = 0x5B)
           (rx_class (\<lambda>c. is_a_to_d c \<or> is_A_to_D c)
             (rx_class (\<lambda>c. c = 0x29 \<or> c = 0x2E \<or> c = 0x5D) (rx_plus isWhiteSpace k)))))"

definition answer_rx :: "'a cont \<Rightarrow> 'a cont" where
  \<comment> \<open>\<open>/^(Answer|Ans|Correct|Solution)s?[:]\s*/i\<close>\<close>
  "answer_rx k =
     rx_alt (rx_lit_i (js ''Answer''))
       (rx_alt (rx_lit_i (js ''Ans'')) (rx_alt (rx_lit_i (js ''Correct'')) (rx_lit_i (js ''Solution''))))
       (rx_opt (\<lambda>c. ascii_upper c = 0x53) (rx_class (\<lambda>c. c = 0x3A) (rx_star isWhiteSpace k)))"

definition explanation_rx :: "'a cont \<Rightarrow> 'a cont" where
  \<comment> \<open>\<open>/^(Explanation|Because|Reason|Solution)s?[:]\s*/i\<close>\<close>
  "explanation_rx k =
     rx_alt (rx_lit_i (js ''Explanation''))
       (rx_alt (rx_lit_i (js ''Because'')) (rx_alt (rx_lit_i (js ''Reason'')) (rx_lit_i (js ''Solution''))))
       (rx_opt (\<lambda>c. ascii_upper c = 0x53) (rx_class (\<lambda>c. c = 0x3A) (rx_star isWhiteSpace k)))"

definition header_rx :: "'a cont \<Rightarrow> 'a cont" where
  \<comment> \<open>\<open>/^[A-Z\s]+$/\<close>\<close>
  "header_rx k = rx_plus (\<lambda>c. is_A_to_Z c \<or> isWhiteSpace c) (rx_end k)"

definition question_mark :: jsstring where
  \<comment> \<open>U+2753 and a space\<close>
  "question_mark = [0x2753, 0x20]"

definition option_mark :: jsstring where
  \<comment> \<open>U+1F518 and a space\<close>
  "option_mark = [0xD83D, 0xDD18, 0x20]"

definition answer_mark :: jsstring where
  \<comment> \<open>U+2705 and a space\<close>
  "answer_mark = [0x2705, 0x20]"

definition explanation_mark :: jsstring where
  \<comment> \<open>U+1F4A1 and a space\<close>
  "explanation_mark = [0xD83D, 0xDCA1, 0x20]"

definition plain_mark :: jsstring where
  \<comment> \<open>U+1F4DD and a space\<close>
  "plain_mark = [0xD83D, 0xDCDD, 0x20]"

definition classify_chunk :: "jsstring list \<Rightarrow> jsstring \<Rightarrow> jsstring list" where
  \<comment> \<open>the body of the loop over the chunks: \<open>lines\<close> before, \<open>lines\<close> after\<close>
  "classify_chunk lines chunk =
     (let trimmed = replace_whitespace_runs (js_trim chunk)
      in if rx_test question_rx trimmed then lines @ [question_mark @ trimmed]
         else if rx_test option_rx trimmed then lines @ [option_mark @ trimmed]
         else if rx_test answer_rx trimmed then lines @ [answer_mark @ trimmed]
         else if rx_test explanation_rx trimmed then lines @ [explanation_mark @ trimmed]
         else if 15 < length trimmed \<and> \<not> rx_test header_rx trimmed
           then lines @ [plain_mark @ trimmed]
         else lines)"

datatype console_entry = Parsed_lines nat
  \<comment> \<open>the message \<open>Parsed ${lines.length} lines from PDF text\<close>\<close>

definition parseQuizText :: "jsstring \<Rightarrow> console_entry list \<Rightarrow> jsstring list \<times> console_entry list" where
  \<comment> \<open>The console is the one thing outside the function that its body touches; it is
      passed in and returned with the message appended.\<close>
  "parseQuizText text console =
     (let chunks = filter (\<lambda>chunk. 5 < length (js_trim chunk)) (js_split_newlines text);
          lines = foldl classify_chunk [] chunks
      in (lines, console @ [Parsed_lines (length lines)]))"

section \<open>The classifier of the earlier EditorScreen (part_001): blocks between question numbers\<close>

definition block_start_rx :: "'a cont \<Rightarrow> 'a cont" where
  \<comment> \<open>\<open>\d+\.\s\<close>, the body of the lookahead the text is split on\<close>
  "block_start_rx k = rx_plus isDigit (rx_class (\<lambda>c. c = 0x2E) (rx_class isWhiteSpace k))"

fun split_before :: "jsstring \<Rightarrow> jsstring \<Rightarrow> jsstring list" where
  \<comment> \<open>The loop of \<open>split\<close> for a separator of width zero: \<open>cur\<close> is the text from the last
      cut to the current index. A match at the index of the last cut is skipped, so there
      is no cut at index 0 and no empty piece.\<close>
  "split_before cur [] = [cur]"
| "split_before cur (c # cs) =
     (if cur \<noteq> [] \<and> rx_test block_start_rx (c # cs) then cur # split_before [c] cs
      else split_before (cur @ [c]) cs)"

definition js_split_blocks :: "jsstring \<Rightarrow> jsstring list" where
  \<comment> \<open>\<open>text.split(/(?=\d+\.\s)/)\<close>\<close>
  "js_split_blocks s = split_before [] s"

definition option_ahead_rx :: "'a cont \<Rightarrow> 'a cont" where
  \<comment> \<open>\<open>\s*\<bullet>\s*\([a-d]\)\<close>\<close>
  "option_ahead_rx k =
     rx_star isWhiteSpace (rx_class (\<lambda>c. c = 0x2022)
       (rx_star isWhiteSpace (rx_class (\<lambda>c. c = 0x28)
         (rx_class is_a_to_d (rx_class (\<lambda>c. c = 0x29) k)))))"

definition questionMatch :: "jsstring \<Rightarrow> (jsstring \<times> jsstring) option" where
  \<comment> \<open>\<open>remainingText.match(/^(\d+\.)\s+(.*?)(?=\s*\<bullet>\s*\([a-d]\)|$)/)\<close>: the pair of
      \<open>questionMatch[0]\<close> and \<open>questionMatch[2]\<close>\<close>
  "questionMatch s =
     rx_plus isDigit (rx_class (\<lambda>c. c = 0x2E) (rx_plus isWhiteSpace
       (\<lambda>s2. rx_lazy_star isDot
          (\<lambda>s3. rx_look (rx_alt option_ahead_rx rx_end)
             (\<lambda>_. Some (take (length s - length s3) s, take (length s2 - length s3) s2)) s3)
          s2))) s"

definition option_at :: "jsstring \<Rightarrow> (jsstring \<times> jsstring \<times> jsstring) option" where
  \<comment> \<open>one match of \<open>/\<bullet>\s*\(([a-d])\)\s+(.*?)(?=\s*\<bullet>\s*\([a-d]\)|Answer:|$)/g\<close> at
      the start of \<open>s\<close>: \<open>match[0]\<close>, \<open>match[1]\<close> and \<open>match[2]\<close>\<close>
  "option_at s =
     rx_class (\<lambda>c. c = 0x2022) (rx_star isWhiteSpace (rx_class (\<lambda>c. c = 0x28)
       (\<lambda>s1. rx_class is_a_to_d (rx_class (\<lambda>c. c = 0x29) (rx_plus isWhiteSpace
          (\<lambda>s2. rx_lazy_star isDot
             (\<lambda>s3. rx_look (rx_alt option_ahead_rx (rx_alt (rx_lit (js ''Answer:'')) rx_end))
                (\<lambda>_. Some (take (length s - length s3) s, take 1 s1,
                            take (length s2 - length s3) s2)) s3)
             s2))) s1))) s"

function optionMatches :: "jsstring \<Rightarrow> (jsstring \<times> jsstring \<times> jsstring) list" where
  \<comment> \<open>\<open>remainingText.matchAll(...)\<close>: the matches from left to right, each search
      starting where the match before ended (one further after an empty match, which
      this pattern does not have)\<close>
  "optionMatches [] = []"
| "optionMatches (c # cs) =
     (case option_at (c # cs) of
        None \<Rightarrow> optionMatches cs
      | Some m \<Rightarrow>
          m # (if 0 < length (fst m) \<and> length (fst m) \<le> Suc (length cs)
               then optionMatches (drop (length (fst m)) (c # cs))
               else optionMatches cs))"
  by pat_completeness auto
termination
  by (relation "measure length") auto

definition option_step :: "jsstring list \<times> jsstring \<Rightarrow> jsstring \<times> jsstring \<times> jsstring
    \<Rightarrow> jsstring list \<times> jsstring" where
  \<comment> \<open>the body of the loop over the matches, on \<open>lines\<close> and \<open>remainingText\<close>; the pushed
      line is U+1F518, a space, the letter in parentheses, a space and the text\<close>
  "option_step st match =
     (let lines = fst st; remainingText = snd st;
          optionLetter = fst (snd match);
          optionText = js_trim (snd (snd match));
          lines = (if optionText \<noteq> []
                   then lines @ [option_mark @ js ''('' @ optionLetter @ js '') '' @ optionText]
                   else lines)
      in (lines, js_trim (js_replace_first (fst match) remainingText)))"

definition answerMatch :: "jsstring \<Rightarrow> jsstring option" where
  \<comment> \<open>\<open>remainingText.match(/Answer:\s*(.+?)(?=\d+\.|$)/)\<close>: \<open>answerMatch[1]\<close>\<close>
  "answerMatch s =
     rx_search (rx_lit (js ''Answer:'') (rx_star isWhiteSpace
       (\<lambda>s1. rx_lazy_plus isDot
          (\<lambda>s2. rx_look (rx_alt (\<lambda>k. rx_plus isDigit (rx_class (\<lambda>c. c = 0x2E) k)) rx_end)
             (\<lambda>_. Some (take (length s1 - length s2) s1)) s2)
          s1))) s"

definition process_block :: "jsstring list \<Rightarrow> jsstring \<Rightarrow> jsstring list" where
  \<comment> \<open>the body of the loop over the question blocks: \<open>lines\<close> before, \<open>lines\<close> after\<close>
  "process_block lines block =
     (let remainingText = js_trim block;
          st = (case questionMatch remainingText of
                  None \<Rightarrow> (lines, remainingText)
                | Some m \<Rightarrow>
                    (let questionText = js_trim (snd m)
                     in (if questionText \<noteq> [] then lines @ [question_mark @ questionText]
                         else lines,
                         js_trim (js_replace_first (fst m) remainingText))));
          st = foldl option_step st (optionMatches (snd st));
          lines = fst st; remainingText = snd st
      in case answerMatch remainingText of
           None \<Rightarrow> lines
         | Some a \<Rightarrow>
             (let answerText = js_trim a
              in if answerText \<noteq> [] then lines @ [answer_mark @ js ''Answer: '' @ answerText]
                 else lines))"

definition parseQuizText_blocks :: "jsstring \<Rightarrow> jsstring list" where
  \<comment> \<open>\<open>parseQuizText\<close> of part_001\<close>
  "parseQuizText_blocks text =
     (let questionBlocks = filter (\<lambda>q. 0 < length (js_trim q)) (js_split_blocks text)
      in foldl process_block [] questionBlocks)"

definition after_question :: "jsstring \<Rightarrow> jsstring" where
  \<comment> \<open>\<open>remainingText\<close> of a block when the loop over the option matches starts: the
      trimmed block, without the question match when there is one\<close>
  "after_question block =
     (let remainingText = js_trim block
      in case questionMatch remainingText of
           None \<Rightarrow> remainingText
         | Some m \<Rightarrow> js_trim (js_replace_first (fst m) remainingText))"

section \<open>The question builder (JSONBuilder in EditorScreen.tsx)\<close>

text \<open>
  \<open>interface QuestionData\<close>. The question number is a JavaScript number that only ever
  holds \<open>1\<close> or \<open>questionsArray.length + 2\<close>, a natural number. The field
  \<open>option_with_images\<close> is the source's field of that name followed by an underscore,
  which no Isabelle name may end in.
\<close>

record QuestionData =
  questionNumber :: nat
  questionText :: jsstring
  question_images :: "jsstring list"
  option_with_images :: "jsstring list"
  correct_answer :: jsstring

text \<open>
  The two pieces of React state the builder works on. A handler reads the values of the
  current render and hands new values to the setters; nothing is mutated in place except
  fresh copies (\<open>newOptions\<close>, \<open>finalArray\<close>), so the state is a value and each handler a
  function from the state of one render to the state of the next.
\<close>

record engine =
  currentQuestion :: QuestionData
  questionsArray :: "QuestionData list"

definition initial_engine :: engine where
  \<comment> \<open>the two \<open>useState\<close> initial values\<close>
  "initial_engine =
     \<lparr>currentQuestion =
        \<lparr>questionNumber = 1, questionText = [], question_images = [],
         option_with_images = [[], [], [], []], correct_answer = js ''A''\<rparr>,
      questionsArray = []\<rparr>"

definition canCommit :: "QuestionData \<Rightarrow> bool" where
  \<comment> \<open>the guard \<open>currentQuestion.questionText && currentQuestion.option_with_images_.every(opt => opt.trim())\<close>
      of \<open>addQuestion\<close>, of \<open>exportJSON\<close> and of the button's \<open>disabled\<close> attribute:
      a string is truthy when it is not empty\<close>
  "canCommit q \<longleftrightarrow>
     questionText q \<noteq> [] \<and> list_all (\<lambda>opt. js_trim opt \<noteq> []) (option_with_images q)"

definition canCommit_spec :: "QuestionData \<Rightarrow> bool" where
  \<comment> \<open>the predicate in the words of the specification: the stem trimmed is not empty and
      each of the four options trimmed is not empty\<close>
  "canCommit_spec q \<longleftrightarrow>
     js_trim (questionText q) \<noteq> [] \<and>
     js_trim (option_with_images q ! 0) \<noteq> [] \<and> js_trim (option_with_images q ! 1) \<noteq> [] \<and>
     js_trim (option_with_images q ! 2) \<noteq> [] \<and> js_trim (option_with_images q ! 3) \<noteq> []"

definition handleQuestionDrop :: "jsstring \<Rightarrow> engine \<Rightarrow> engine" where
  "handleQuestionDrop text s = s\<lparr>currentQuestion := (currentQuestion s)\<lparr>questionText := text\<rparr>\<rparr>"

definition handleOptionDrop :: "jsstring \<Rightarrow> nat \<Rightarrow> engine \<Rightarrow> engine option" where
  \<comment> \<open>\<open>newOptions[optionIndex] = text\<close> on a copy of the options. An index beyond the end
      would grow the JavaScript array and leave holes; the drop zones pass the indices
      0 to 3 of \<open>['A', 'B', 'C', 'D'].map\<close> only, and the model has no value (\<open>None\<close>)
      for any other index.\<close>
  "handleOptionDrop text optionIndex s =
     (let newOptions = option_with_images (currentQuestion s)
      in if optionIndex < length newOptions
         then Some (s\<lparr>currentQuestion :=
                 (currentQuestion s)\<lparr>option_with_images := newOptions[optionIndex := text]\<rparr>\<rparr>)
         else None)"

definition handleAnswerChange :: "jsstring \<Rightarrow> engine \<Rightarrow> engine" where
  "handleAnswerChange answer s = s\<lparr>currentQuestion := (currentQuestion s)\<lparr>correct_answer := answer\<rparr>\<rparr>"

datatype error = ValidationError

definition addQuestion :: "engine \<Rightarrow> (error + unit) \<times> engine" where
  \<comment> \<open>The body is one \<open>if\<close> without \<open>else\<close> and holds no \<open>throw\<close>: the call completes
      normally (\<open>Inr ()\<close>) on both paths. The new number is computed from the array of
      the current render, before the append.\<close>
  "addQuestion s =
     (if canCommit (currentQuestion s)
      then (Inr (),
            \<lparr>currentQuestion =
               \<lparr>questionNumber = length (questionsArray s) + 2, questionText = [],
                question_images = [], option_with_images = [[], [], [], []],
                correct_answer = js ''A''\<rparr>,
             questionsArray = questionsArray s @ [currentQuestion s]\<rparr>)
      else (Inr (), s))"

definition exportJSON :: "engine \<Rightarrow> QuestionData list \<times> engine" where
  \<comment> \<open>Returns \<open>finalArray\<close>, the value handed to \<open>JSON.stringify\<close>, and the state. The
      \<open>push\<close> goes to the copy \<open>[...questionsArray]\<close>, and no setter is called.\<close>
  "exportJSON s =
     (let finalArray = questionsArray s;
          finalArray = (if canCommit (currentQuestion s)
                        then finalArray @ [currentQuestion s] else finalArray)
      in (finalArray, s))"

text \<open>
  The same function with the arrays of questions in a store, an address being an index
  into it: \<open>[...questionsArray]\<close> allocates a new array, and \<open>push\<close> writes to the array
  that \<open>finalArray\<close> refers to. The function returns that reference and the store.
\<close>

type_synonym array_store = "QuestionData list list"

definition exportJSON_store :: "QuestionData \<Rightarrow> nat \<Rightarrow> array_store \<Rightarrow> nat \<times> array_store" where
  \<comment> \<open>\<open>cq\<close> is \<open>currentQuestion\<close>, \<open>qa\<close> the reference held by \<open>questionsArray\<close>\<close>
  "exportJSON_store cq qa st =
     (let finalArray = length st;
          st = st @ [st ! qa];
          st = (if canCommit cq then st[finalArray := st ! finalArray @ [cq]] else st)
      in (finalArray, st))"

definition stored_engine :: "QuestionData \<Rightarrow> nat \<Rightarrow> array_store \<Rightarrow> engine" where
  \<comment> \<open>the state as values, for a draft, a reference to the committed list and a store\<close>
  "stored_engine cq qa st = \<lparr>currentQuestion = cq, questionsArray = st ! qa\<rparr>"

text \<open>
  The states the builder can be in: the initial one, and whatever the five handlers make
  of a state, the option drop at the indices 0 to 3 of the four drop zones.
\<close>

inductive reachable :: "engine \<Rightarrow> bool" where
  reach_init: "reachable initial_engine"
| reach_question: "reachable s \<Longrightarrow> reachable (handleQuestionDrop text s)"
| reach_option: "reachable s \<Longrightarrow> optionIndex < 4 \<Longrightarrow> handleOptionDrop text optionIndex s = Some s'
    \<Longrightarrow> reachable s'"
| reach_answer: "reachable s \<Longrightarrow> reachable (handleAnswerChange answer s)"
| reach_add: "reachable s \<Longrightarrow> reachable (snd (addQuestion s))"
| reach_export: "reachable s \<Longrightarrow> reachable (snd (exportJSON s))"

code_pred reachable .

definition four_options :: "engine \<Rightarrow> bool" where
  "four_options s \<longleftrightarrow>
     length (option_with_images (currentQuestion s)) = 4 \<and>
     list_all (\<lambda>q. length (option_with_images q) = 4) (questionsArray s)"

section \<open>Fragments and scenarios\<close>

text \<open>
  The classifiers return display lines: a mark for the role, a space, and the text. The
  fragment of the specification that a line stands for is read off its mark.
\<close>

datatype role = Question | Opt | Answer | Explanation | Plain

definition line_role :: "jsstring \<Rightarrow> role option" where
  "line_role l =
     (if take 2 l = question_mark then Some Question
      else if take 3 l = option_mark then Some Opt
      else if take 2 l = answer_mark then Some Answer
      else if take 3 l = explanation_mark then Some Explanation
      else if take 3 l = plain_mark then Some Plain
      else None)"

definition line_text :: "jsstring \<Rightarrow> jsstring" where
  "line_text l =
     (case line_role l of
        None \<Rightarrow> l
      | Some Question \<Rightarrow> drop 2 l
      | Some Answer \<Rightarrow> drop 2 l
      | Some _ \<Rightarrow> drop 3 l)"

definition fragments :: "jsstring list \<Rightarrow> (role option \<times> jsstring) list" where
  "fragments ls = zip (map line_role ls) (map line_text ls)"

definition keeps_letter :: "jsstring \<Rightarrow> bool" where
  \<comment> \<open>the text of the line starts with a parenthesised letter a to d and a space\<close>
  "keeps_letter l =
     (case line_text l of
        p # c # q # sp # _ \<Rightarrow> p = 0x28 \<and> is_a_to_d c \<and> q = 0x29 \<and> sp = 0x20
      | _ \<Rightarrow> False)"

definition captures_marker_letter :: "jsstring \<times> jsstring \<times> jsstring \<Rightarrow> bool" where
  \<comment> \<open>for a match of the option pattern: \<open>match[0]\<close> starts with the bullet, white space
      and a parenthesised letter a to d, and \<open>match[1]\<close> is that letter\<close>
  "captures_marker_letter m =
     (case fst m of
        [] \<Rightarrow> False
      | b # r \<Rightarrow>
          b = 0x2022 \<and>
          (case dropWhile isWhiteSpace r of
             p # c # q # _ \<Rightarrow> p = 0x28 \<and> is_a_to_d c \<and> q = 0x29 \<and> fst (snd m) = [c]
           | _ \<Rightarrow> False))"

definition option_line_of :: "jsstring \<Rightarrow> jsstring \<Rightarrow> bool" where
  \<comment> \<open>the text of the line is the letter captured by an option match of a block of the
      text, in parentheses, a space, and the trimmed text of that match\<close>
  "option_line_of text l \<longleftrightarrow>
     (\<exists>block \<in> set (js_split_blocks text). \<exists>m \<in> set (optionMatches (after_question block)).
        captures_marker_letter m \<and> sublist (fst m) text \<and>
        line_text l = js ''('' @ fst (snd m) @ js '') '' @ js_trim (snd (snd m)))"

definition option_lines_from :: "jsstring \<Rightarrow> jsstring list \<Rightarrow> bool" where
  \<comment> \<open>every option line among \<open>lines\<close> keeps the letter of its match\<close>
  "option_lines_from text lines \<longleftrightarrow>
     list_all (\<lambda>l. line_role l = Some Opt \<longrightarrow> keeps_letter l \<and> option_line_of text l) lines"

primrec js_includes :: "jsstring \<Rightarrow> jsstring \<Rightarrow> bool" where
  \<comment> \<open>\<open>s.includes(pat)\<close>\<close>
  "js_includes [] pat \<longleftrightarrow> pat = []"
| "js_includes (c # cs) pat \<longleftrightarrow> take (length pat) (c # cs) = pat \<or> js_includes cs pat"

definition scenario_text :: jsstring where
  \<comment> \<open>\<open>1. What is 2+2? \<bullet> (a) 3 \<bullet> (b) 4 \<bullet> (c) 5 \<bullet> (d) 6 Answer: b\<close>\<close>
  "scenario_text =
     js ''1. What is 2+2? '' @ [0x2022] @ js '' (a) 3 '' @ [0x2022] @ js '' (b) 4 '' @ [0x2022] @
     js '' (c) 5 '' @ [0x2022] @ js '' (d) 6 Answer: b''"

definition scenario_fragments_spec :: "(role option \<times> jsstring) list" where
  \<comment> \<open>the six fragments the specification gives for \<open>scenario_text\<close>\<close>
  "scenario_fragments_spec =
     [(Some Question, js ''What is 2+2?''), (Some Opt, js ''3''), (Some Opt, js ''4''),
      (Some Opt, js ''5''), (Some Opt, js ''6''), (Some Answer, js ''b'')]"

definition assign_draft :: "jsstring \<Rightarrow> jsstring \<Rightarrow> jsstring \<Rightarrow> jsstring \<Rightarrow> jsstring \<Rightarrow> jsstring
    \<Rightarrow> engine \<Rightarrow> engine option" where
  \<comment> \<open>a stem dropped on the question zone, four texts dropped on the option zones A to D,
      and an answer chosen\<close>
  "assign_draft stem a b c d answer s =
     Option.bind (handleOptionDrop a 0 (handleQuestionDrop stem s)) (\<lambda>s.
     Option.bind (handleOptionDrop b 1 s) (\<lambda>s.
     Option.bind (handleOptionDrop c 2 s) (\<lambda>s.
     Option.bind (handleOptionDrop d 3 s) (\<lambda>s.
     Some (handleAnswerChange answer s)))))"

definition scenario_engine :: engine where
  \<comment> \<open>the builder after the scenario's stem, options and answer B have been assigned\<close>
  "scenario_engine =
     \<lparr>currentQuestion =
        \<lparr>questionNumber = 1, questionText = js ''What is 2+2?'', question_images = [],
         option_with_images = [js ''3'', js ''4'', js ''5'', js ''6''],
         correct_answer = js ''B''\<rparr>,
      questionsArray = []\<rparr>"

definition blank_stem_engine :: engine where
  \<comment> \<open>the builder after a single space has been dropped as the stem and the four options
      have been filled\<close>
  "blank_stem_engine =
     \<lparr>currentQuestion =
        \<lparr>questionNumber = 1, questionText = js '' '', question_images = [],
         option_with_images = [js ''3'', js ''4'', js ''5'', js ''6''],
         correct_answer = js ''A''\<rparr>,
      questionsArray = []\<rparr>"

section \<open>Properties of the question builder\<close>

lemma reachable_four_options: "reachable s \<Longrightarrow> four_options s"
proof (induction rule: reachable.induct)
  case reach_init
  show ?case by (simp add: four_options_def initial_engine_def)
next
  case (reach_question s t)
  then show ?case by (simp add: four_options_def handleQuestionDrop_def)
next
  case (reach_option s optionIndex t s')
  then show ?case
    by (auto simp: four_options_def handleOptionDrop_def Let_def split: if_splits)
next
  case (reach_answer s answer)
  then show ?case by (simp add: four_options_def handleAnswerChange_def)
next
  case (reach_add s)
  then show ?case by (simp add: four_options_def addQuestion_def)
next
  case (reach_export s)
  then show ?case by (simp add: four_options_def exportJSON_def Let_def)
qed

lemma handleOptionDrop_in_range:
  "reachable s \<Longrightarrow> optionIndex < 4 \<Longrightarrow>
   handleOptionDrop text optionIndex s =
     Some (s\<lparr>currentQuestion := (currentQuestion s)\<lparr>option_with_images :=
             (option_with_images (currentQuestion s))[optionIndex := text]\<rparr>\<rparr>)"
  using reachable_four_options [of s] by (simp add: four_options_def handleOptionDrop_def Let_def)

lemma list_all_four:
  "length xs = 4 \<Longrightarrow> list_all P xs \<longleftrightarrow> P (xs ! 0) \<and> P (xs ! 1) \<and> P (xs ! 2) \<and> P (xs ! 3)"
proof -
  assume "length xs = 4"
  then obtain a b c d where "xs = [a, b, c, d]"
    by (cases xs; simp; rename_tac ys, case_tac ys; simp; rename_tac zs, case_tac zs; simp;
        rename_tac ws, case_tac ws; simp)
  then show ?thesis by simp
qed

lemma assign_draft_reachable:
  assumes "reachable s" and "assign_draft stem a b c d answer s = Some s'"
  shows "reachable s'"
proof -
  from assms(2) obtain s1 s2 s3 s4 where
    h1: "handleOptionDrop a 0 (handleQuestionDrop stem s) = Some s1" and
    h2: "handleOptionDrop b 1 s1 = Some s2" and
    h3: "handleOptionDrop c 2 s2 = Some s3" and
    h4: "handleOptionDrop d 3 s3 = Some s4" and
    h5: "s' = handleAnswerChange answer s4"
    by (auto simp: assign_draft_def Option.bind_eq_Some_conv)
  have r0: "reachable (handleQuestionDrop stem s)" using assms(1) by (rule reach_question)
  have r1: "reachable s1" by (rule reach_option [OF r0 _ h1]) simp
  have r2: "reachable s2" by (rule reach_option [OF r1 _ h2]) simp
  have r3: "reachable s3" by (rule reach_option [OF r2 _ h3]) simp
  have "reachable s4" by (rule reach_option [OF r3 _ h4]) simp
  then show ?thesis unfolding h5 by (rule reach_answer)
qed

lemma assign_scenario:
  "assign_draft (js ''What is 2+2?'') (js ''3'') (js ''4'') (js ''5'') (js ''6'') (js ''B'')
     initial_engine = Some scenario_engine"
  by (simp add: assign_draft_def handleOptionDrop_def handleQuestionDrop_def
      handleAnswerChange_def initial_engine_def scenario_engine_def Let_def)

lemma assign_blank_stem:
  "assign_draft (js '' '') (js ''3'') (js ''4'') (js ''5'') (js ''6'') (js ''A'')
     initial_engine = Some blank_stem_engine"
  by (simp add: assign_draft_def handleOptionDrop_def handleQuestionDrop_def
      handleAnswerChange_def initial_engine_def blank_stem_engine_def Let_def)

lemma reachable_scenario_engine: "reachable scenario_engine"
  using reach_init assign_scenario by (rule assign_draft_reachable)

lemma reachable_blank_stem_engine: "reachable blank_stem_engine"
  using reach_init assign_blank_stem by (rule assign_draft_reachable)

lemma canCommit_scenario_engine: "canCommit (currentQuestion scenario_engine)"
  by (simp add: canCommit_def scenario_engine_def js_def js_trim_def isWhiteSpace_def)

lemma not_canCommit_initial: "\<not> canCommit (currentQuestion initial_engine)"
  by (simp add: canCommit_def initial_engine_def)

text \<open>
  Claim C1, with the stem as the code tests it. In every reachable state of the builder
  the guard holds exactly when the stem is not the empty string (the stem is not trimmed)
  and each of the four options, trimmed of white space, is not empty.
\<close>

theorem canCommit_reachable:
  assumes "reachable s"
  shows "canCommit (currentQuestion s) \<longleftrightarrow>
    questionText (currentQuestion s) \<noteq> [] \<and>
    js_trim (option_with_images (currentQuestion s) ! 0) \<noteq> [] \<and>
    js_trim (option_with_images (currentQuestion s) ! 1) \<noteq> [] \<and>
    js_trim (option_with_images (currentQuestion s) ! 2) \<noteq> [] \<and>
    js_trim (option_with_images (currentQuestion s) ! 3) \<noteq> []"
proof -
  have "length (option_with_images (currentQuestion s)) = 4"
    using reachable_four_options [OF assms] by (simp add: four_options_def)
  then show ?thesis by (simp add: canCommit_def list_all_four)
qed

theorem canCommit_reachable_witness:
  "reachable blank_stem_engine \<and> canCommit (currentQuestion blank_stem_engine) \<and>
   questionText (currentQuestion blank_stem_engine) = js '' ''"
  using canCommit_reachable [OF reachable_blank_stem_engine] reachable_blank_stem_engine
  by (simp add: blank_stem_engine_def js_def js_trim_def isWhiteSpace_def)

text \<open>
  Claim C1 as stated fails: with a single space as the stem and four options filled, a
  reachable state, the guard of the code holds although the trimmed stem is empty.
\<close>

theorem canCommit_blank_stem_counterexample:
  "reachable blank_stem_engine \<and> canCommit (currentQuestion blank_stem_engine) \<and>
   \<not> canCommit_spec (currentQuestion blank_stem_engine)"
proof -
  have "canCommit (currentQuestion blank_stem_engine)"
    by (simp add: canCommit_def blank_stem_engine_def js_def js_trim_def isWhiteSpace_def)
  moreover have "\<not> canCommit_spec (currentQuestion blank_stem_engine)"
    by (simp add: canCommit_spec_def blank_stem_engine_def js_def js_trim_def isWhiteSpace_def)
  ultimately show ?thesis using reachable_blank_stem_engine by simp
qed

text \<open>
  Claim C3. When the guard holds for the draft, \<open>addQuestion\<close> appends the draft, number
  included, to the committed list, whose length grows by exactly one, and the new draft
  has the number of the old length plus two, an empty stem, four empty options and the
  answer A.
\<close>

theorem addQuestion_commits:
  assumes "canCommit (currentQuestion s)"
  shows "fst (addQuestion s) = Inr () \<and>
    questionsArray (snd (addQuestion s)) = questionsArray s @ [currentQuestion s] \<and>
    length (questionsArray (snd (addQuestion s))) = length (questionsArray s) + 1 \<and>
    currentQuestion (snd (addQuestion s)) =
      \<lparr>questionNumber = length (questionsArray s) + 2, questionText = [], question_images = [],
       option_with_images = [[], [], [], []], correct_answer = js ''A''\<rparr>"
  using assms by (simp add: addQuestion_def)

theorem addQuestion_commits_witness:
  "canCommit (currentQuestion scenario_engine) \<and>
   questionsArray (snd (addQuestion scenario_engine)) = [currentQuestion scenario_engine] \<and>
   questionNumber (currentQuestion (snd (addQuestion scenario_engine))) = 2"
  using addQuestion_commits [OF canCommit_scenario_engine] canCommit_scenario_engine
  by (simp add: scenario_engine_def)

text \<open>
  Claim C4 as stated fails: in the initial state the guard is false, and \<open>addQuestion\<close>
  completes normally; no \<open>ValidationError\<close> reaches the caller.
\<close>

theorem addQuestion_no_error_counterexample:
  "\<not> canCommit (currentQuestion initial_engine) \<and>
   fst (addQuestion initial_engine) \<noteq> Inl ValidationError"
  by (simp add: addQuestion_def not_canCommit_initial)

text \<open>
  Claim C4, with the rejection as the code makes it. When the guard is false for the
  draft, \<open>addQuestion\<close> returns normally without signalling an error, and the state
  (draft, committed list and with them the next number) is unchanged.
\<close>

theorem addQuestion_rejects_silently:
  assumes "\<not> canCommit (currentQuestion s)"
  shows "addQuestion s = (Inr (), s)"
  using assms by (simp add: addQuestion_def)

theorem addQuestion_rejects_silently_witness:
  "\<not> canCommit (currentQuestion initial_engine) \<and> addQuestion initial_engine = (Inr (), initial_engine)"
  using addQuestion_rejects_silently [OF not_canCommit_initial] not_canCommit_initial by simp

lemma exportJSON_store_frame:
  assumes "qa < length st"
  shows "take (length st) (snd (exportJSON_store cq qa st)) = st \<and>
    fst (exportJSON_store cq qa st) \<noteq> qa \<and>
    snd (exportJSON_store cq qa st) ! fst (exportJSON_store cq qa st) =
      fst (exportJSON (stored_engine cq qa st))"
  using assms
  by (simp add: exportJSON_store_def exportJSON_def stored_engine_def Let_def nth_append)

text \<open>
  Claim C5. \<open>exportJSON\<close> leaves the state of the builder as it was, and a second export
  right after the first gives the same array. On values: the state returned is the state
  given, with the same value of the guard, and the second result is the first. On the
  store: every array that existed before the call, the committed list among them, holds
  what it held, so the draft and the committed list are the same; the array returned is
  a new one and holds the result on values, also for the second call.
\<close>

theorem exportJSON_frame:
  assumes "qa < length st"
  shows "snd (exportJSON s) = s \<and>
    canCommit (currentQuestion (snd (exportJSON s))) = canCommit (currentQuestion s) \<and>
    fst (exportJSON (snd (exportJSON s))) = fst (exportJSON s) \<and>
    take (length st) (snd (exportJSON_store cq qa st)) = st \<and>
    stored_engine cq qa (snd (exportJSON_store cq qa st)) = stored_engine cq qa st \<and>
    fst (exportJSON_store cq qa st) \<noteq> qa \<and>
    snd (exportJSON_store cq qa st) ! fst (exportJSON_store cq qa st) =
      fst (exportJSON (stored_engine cq qa st)) \<and>
    snd (exportJSON_store cq qa (snd (exportJSON_store cq qa st))) !
        fst (exportJSON_store cq qa (snd (exportJSON_store cq qa st))) =
      snd (exportJSON_store cq qa st) ! fst (exportJSON_store cq qa st)"
proof -
  let ?r = "exportJSON_store cq qa st"
  have len: "length (snd ?r) = Suc (length st)"
    by (simp add: exportJSON_store_def Let_def)
  have old: "snd ?r ! qa = st ! qa"
    using assms by (simp add: exportJSON_store_def Let_def nth_append)
  have qa': "qa < length (snd ?r)" using assms len by simp
  have e: "stored_engine cq qa (snd ?r) = stored_engine cq qa st"
    using old by (simp add: stored_engine_def)
  show ?thesis
    using exportJSON_store_frame [OF assms, of cq] exportJSON_store_frame [OF qa', of cq] e
    by (simp add: exportJSON_def Let_def)
qed

theorem exportJSON_frame_witness:
  "(0::nat) < length [[currentQuestion scenario_engine]] \<and>
   snd (exportJSON_store (currentQuestion scenario_engine) 0 [[currentQuestion scenario_engine]]) =
     [[currentQuestion scenario_engine],
      [currentQuestion scenario_engine, currentQuestion scenario_engine]] \<and>
   snd (exportJSON scenario_engine) = scenario_engine"
proof -
  have h: "(0::nat) < length [[currentQuestion scenario_engine]]" by simp
  show ?thesis
    using exportJSON_frame [OF h, of scenario_engine "currentQuestion scenario_engine"]
      canCommit_scenario_engine
    by (simp add: exportJSON_store_def Let_def)
qed

text \<open>
  Claim C6. In every reachable state the exported array is the committed list in commit
  order, with the draft appended at the end exactly when the guard holds for it: its
  length is that of the committed list, plus one when the draft qualifies. Every element
  has exactly four options; they are the stored arrays, whose index 0 to 3 is the drop
  zone A to D that \<open>handleOptionDrop\<close> wrote.
\<close>

theorem exportJSON_result:
  assumes "reachable s"
  shows "fst (exportJSON s) =
      questionsArray s @ (if canCommit (currentQuestion s) then [currentQuestion s] else []) \<and>
    length (fst (exportJSON s)) =
      (if canCommit (currentQuestion s) then length (questionsArray s) + 1
       else length (questionsArray s)) \<and>
    (\<forall>q \<in> set (fst (exportJSON s)). length (option_with_images q) = 4)"
  using reachable_four_options [OF assms]
  by (auto simp: exportJSON_def Let_def four_options_def list_all_iff)

theorem exportJSON_result_witness:
  "reachable scenario_engine \<and>
   fst (exportJSON scenario_engine) = [currentQuestion scenario_engine] \<and>
   length (fst (exportJSON scenario_engine)) = 1 \<and>
   length (option_with_images (currentQuestion scenario_engine)) = 4"
  using exportJSON_result [OF reachable_scenario_engine] reachable_scenario_engine
    canCommit_scenario_engine
  by (simp add: scenario_engine_def)

section \<open>Properties of the classifiers\<close>

lemma length_classify_chunk: "length (classify_chunk lines chunk) \<le> Suc (length lines)"
  by (simp add: classify_chunk_def Let_def)

lemma length_foldl_classify_chunk:
  "length (foldl classify_chunk lines chunks) \<le> length lines + length chunks"
proof (induction chunks arbitrary: lines)
  case Nil
  show ?case by simp
next
  case (Cons chunk chunks)
  have "length (foldl classify_chunk (classify_chunk lines chunk) chunks)
      \<le> length (classify_chunk lines chunk) + length chunks"
    by (rule Cons.IH)
  also have "\<dots> \<le> Suc (length lines) + length chunks"
    using length_classify_chunk [of lines chunk] by simp
  finally show ?case by simp
qed

lemma js_trim_Nil: "js_trim [] = []"
  by (simp add: js_trim_def)

text \<open>
  Claim C7. The classifier is deterministic. Its lines depend on the text alone: whatever
  the console holds, the same text gives the same lines, and classifying a text again
  right after classifying it gives the same lines, hence the same roles, the same texts
  and the same order.
\<close>

theorem parseQuizText_deterministic:
  "fst (parseQuizText text console1) = fst (parseQuizText text console2) \<and>
   fst (parseQuizText text (snd (parseQuizText text console1))) = fst (parseQuizText text console1)"
  by (simp add: parseQuizText_def Let_def)

text \<open>
  Claim C8. The classifier is defined on every string: no path of its body throws, and
  the recursions behind \<open>split\<close>, \<open>replace\<close> and the loop terminate. It returns a finite
  list with at most one line per chunk of the text, none at worst, and for the empty
  string the empty list (as the classifier of part_001 does).
\<close>

theorem parseQuizText_total:
  "fst (parseQuizText [] console) = [] \<and>
   length (fst (parseQuizText text console)) \<le> length (js_split_newlines text) \<and>
   parseQuizText_blocks [] = []"
proof -
  have "fst (parseQuizText [] console) = []"
    by (simp add: parseQuizText_def js_split_newlines_def js_trim_Nil)
  moreover have "length (fst (parseQuizText text console)) \<le> length (js_split_newlines text)"
  proof -
    let ?chunks = "filter (\<lambda>chunk. 5 < length (js_trim chunk)) (js_split_newlines text)"
    have "length (foldl classify_chunk [] ?chunks) \<le> length ?chunks"
      using length_foldl_classify_chunk [of "[]" ?chunks] by simp
    also have "\<dots> \<le> length (js_split_newlines text)" by (rule length_filter_le)
    finally show ?thesis by (simp add: parseQuizText_def Let_def)
  qed
  moreover have "parseQuizText_blocks [] = []"
    by (simp add: parseQuizText_blocks_def js_split_blocks_def js_trim_Nil)
  ultimately show ?thesis by simp
qed

lemma split_newlines_from_no_newline:
  "0x0A \<notin> set c \<Longrightarrow> split_newlines_from cur c = [cur @ c]"
  by (induction c arbitrary: cur) auto

lemma filter_split_dropWhile:
  assumes "\<not> P []"
  shows "filter P (split_newlines_from [] (dropWhile (\<lambda>c. c = 0x0A) r)) = filter P (split_newlines_from [] r)"
proof (cases r)
  case Nil
  then show ?thesis by simp
next
  case (Cons c cs)
  then show ?thesis using assms by simp
qed

lemma filter_split_append:
  assumes "\<not> P []"
  shows "filter P (split_newlines_from cur (a @ 0x0A # r)) =
    filter P (split_newlines_from cur a) @ filter P (split_newlines_from [] r)"
proof (induction cur a rule: split_newlines_from.induct)
  case (1 cur)
  show ?case using assms filter_split_dropWhile [of P r] by simp
next
  case (2 cur c cs)
  show ?case
  proof (cases "c = 0x0A")
    case False
    then show ?thesis using 2 by simp
  next
    case True
    show ?thesis
    proof (cases "\<forall>x \<in> set cs. x = 0x0A")
      case True
      then have d: "dropWhile (\<lambda>c. c = 0x0A) cs = []" by simp
      have e: "dropWhile (\<lambda>c. c = 0x0A) (cs @ 0x0A # r) = dropWhile (\<lambda>c. c = 0x0A) r"
        using True by (simp add: dropWhile_append)
      have "split_newlines_from cur ((c # cs) @ 0x0A # r) =
          cur # split_newlines_from [] (dropWhile (\<lambda>c. c = 0x0A) r)"
        using \<open>c = 0x0A\<close> by (simp only: append_Cons split_newlines_from.simps e) simp
      moreover have "split_newlines_from cur (c # cs) = [cur, []]"
        using \<open>c = 0x0A\<close> by (simp only: split_newlines_from.simps d) simp
      ultimately show ?thesis
        using assms filter_split_dropWhile [of P r] by simp
    next
      case False
      then have "dropWhile (\<lambda>c. c = 0x0A) (cs @ 0x0A # r) = dropWhile (\<lambda>c. c = 0x0A) cs @ 0x0A # r"
        by (auto simp: dropWhile_append)
      then show ?thesis using \<open>c = 0x0A\<close> 2(1) by simp
    qed
  qed
qed

lemma classify_chunk_append: "classify_chunk lines chunk = lines @ classify_chunk [] chunk"
  by (simp add: classify_chunk_def Let_def)

lemma foldl_classify_chunk_concat:
  "foldl classify_chunk lines chunks = lines @ concat (map (classify_chunk []) chunks)"
proof (induction chunks arbitrary: lines)
  case Nil
  show ?case by simp
next
  case (Cons chunk chunks)
  show ?case using Cons.IH [of "classify_chunk lines chunk"] classify_chunk_append [of lines chunk]
    by simp
qed

lemma concat_map_filter:
  "concat (map f (filter P xs)) = concat (map (\<lambda>x. if P x then f x else []) xs)"
  by (induction xs) simp_all

lemma parseQuizText_by_chunks:
  "fst (parseQuizText text console) =
     concat (map (\<lambda>chunk. if 5 < length (js_trim chunk) then classify_chunk [] chunk else [])
       (js_split_newlines text))"
  by (simp add: parseQuizText_def Let_def foldl_classify_chunk_concat concat_map_filter)

text \<open>
  Claim C10. A chunk whose trimmed length is 5 code units or less gives no line, whatever
  pattern it would match. The lines of a text are the lines of its chunks in order, a
  chunk of trimmed length 5 or less giving none, so every line comes from a chunk whose
  trimmed length is more than 5. A short chunk alone gives the empty list, and as the
  first line, the last line or a line between other text it can be taken out without
  changing the lines of the rest. So it is for the chunks \<open>1. Hi\<close> and \<open>Ans:b\<close>, which
  the question and the answer pattern match.
\<close>

theorem short_chunks_dropped:
  assumes "length (js_trim c) \<le> 5" and "0x0A \<notin> set c"
  shows "fst (parseQuizText text console) =
      concat (map (\<lambda>chunk. if 5 < length (js_trim chunk) then classify_chunk [] chunk else [])
        (js_split_newlines text)) \<and>
    (\<forall>l \<in> set (fst (parseQuizText text console)). \<exists>chunk \<in> set (js_split_newlines text).
       5 < length (js_trim chunk) \<and> l \<in> set (classify_chunk [] chunk)) \<and>
    fst (parseQuizText c console) = [] \<and>
    fst (parseQuizText (c @ 0x0A # b) console) = fst (parseQuizText b console) \<and>
    fst (parseQuizText (a @ 0x0A # c) console) = fst (parseQuizText a console) \<and>
    fst (parseQuizText (a @ 0x0A # c @ 0x0A # b) console) =
    fst (parseQuizText (a @ 0x0A # b) console)"
proof -
  let ?P = "\<lambda>chunk. 5 < length (js_trim chunk)"
  have nP: "\<not> ?P []" by (simp add: js_trim_Nil)
  have c: "filter ?P (split_newlines_from [] c) = []"
    using assms by (simp add: split_newlines_from_no_newline)
  have app: "filter ?P (split_newlines_from [] (x @ 0x0A # y)) =
      filter ?P (split_newlines_from [] x) @ filter ?P (split_newlines_from [] y)" for x y
    using filter_split_append [of ?P "[]" x y] nP by simp
  have every: "\<forall>l \<in> set (fst (parseQuizText text console)). \<exists>chunk \<in> set (js_split_newlines text).
       5 < length (js_trim chunk) \<and> l \<in> set (classify_chunk [] chunk)"
    by (auto simp: parseQuizText_by_chunks split: if_splits)
  have alone: "fst (parseQuizText c console) = []"
    using c by (simp add: parseQuizText_def Let_def js_split_newlines_def)
  have first: "fst (parseQuizText (c @ 0x0A # b) console) = fst (parseQuizText b console)"
    using app [of c b] c by (simp add: parseQuizText_def Let_def js_split_newlines_def)
  have last: "fst (parseQuizText (a @ 0x0A # c) console) = fst (parseQuizText a console)"
    using app [of a c] c by (simp add: parseQuizText_def Let_def js_split_newlines_def)
  have "filter ?P (split_newlines_from [] (a @ 0x0A # c @ 0x0A # b)) =
      filter ?P (split_newlines_from [] (a @ 0x0A # b))"
    using app [of a "c @ 0x0A # b"] app [of c b] app [of a b] c by simp
  then have middle: "fst (parseQuizText (a @ 0x0A # c @ 0x0A # b) console) =
      fst (parseQuizText (a @ 0x0A # b) console)"
    by (simp add: parseQuizText_def Let_def js_split_newlines_def)
  show ?thesis
    using parseQuizText_by_chunks every alone first last middle by blast
qed

theorem short_chunks_dropped_witness:
  "length (js_trim (js ''1. Hi'')) \<le> 5 \<and> rx_test question_rx (js ''1. Hi'') \<and>
   fst (parseQuizText (js ''1. Hi'') []) = [] \<and>
   fst (parseQuizText (js ''1. What is 2+2?'' @ 0x0A # js ''1. Hi'') []) =
   fst (parseQuizText (js ''1. What is 2+2?'') []) \<and>
   fst (parseQuizText (js ''1. Hi'' @ 0x0A # js ''1. What is 2+2?'') []) =
   fst (parseQuizText (js ''1. What is 2+2?'') []) \<and>
   length (js_trim (js ''Ans:b'')) \<le> 5 \<and> rx_test answer_rx (js ''Ans:b'') \<and>
   fst (parseQuizText (js ''Ans:b'') []) = [] \<and>
   fst (parseQuizText (js ''1. What is 2+2?'' @ 0x0A # js ''Ans:b'' @ 0x0A # js ''Answer: 4'') []) =
   fst (parseQuizText (js ''1. What is 2+2?'' @ 0x0A # js ''Answer: 4'') [])"
proof -
  have h1: "length (js_trim (js ''1. Hi'')) \<le> 5" by code_simp
  have n1: "0x0A \<notin> set (js ''1. Hi'')" by (simp add: js_def)
  have q1: "rx_test question_rx (js ''1. Hi'')" by code_simp
  have h2: "length (js_trim (js ''Ans:b'')) \<le> 5" by code_simp
  have n2: "0x0A \<notin> set (js ''Ans:b'')" by (simp add: js_def)
  have q2: "rx_test answer_rx (js ''Ans:b'')" by code_simp
  show ?thesis
    using short_chunks_dropped [OF h1 n1, of "[]" "[]" "js ''1. What is 2+2?''" "js ''1. What is 2+2?''"]
      short_chunks_dropped [OF h2 n2, of "[]" "[]" "js ''Answer: 4''" "js ''1. What is 2+2?''"]
      h1 h2 q1 q2
    by simp
qed

lemma rx_classD: "rx_class P k s = Some r \<Longrightarrow> \<exists>c cs. s = c # cs \<and> P c \<and> k cs = Some r"
  by (auto simp: rx_class_def split: list.splits if_splits)

lemma rx_starD:
  "rx_star P k s = Some r \<Longrightarrow> \<exists>pre s'. s = pre @ s' \<and> (\<forall>x \<in> set pre. P x) \<and> k s' = Some r"
proof (induction s)
  case Nil
  then show ?case by simp
next
  case (Cons c cs)
  show ?case
  proof (cases "P c \<and> rx_star P k cs = Some r")
    case True
    with Cons.IH obtain pre s' where "cs = pre @ s'" "\<forall>x \<in> set pre. P x" "k s' = Some r" by blast
    with True have "c # cs = (c # pre) @ s' \<and> (\<forall>x \<in> set (c # pre). P x) \<and> k s' = Some r" by simp
    then show ?thesis by blast
  next
    case False
    with Cons.prems have "k (c # cs) = Some r" by (auto split: if_splits option.splits)
    then have "c # cs = [] @ (c # cs) \<and> (\<forall>x \<in> set []. P x) \<and> k (c # cs) = Some r" by simp
    then show ?thesis by blast
  qed
qed

lemma rx_lazy_starD:
  "rx_lazy_star P k s = Some r \<Longrightarrow> \<exists>pre s'. s = pre @ s' \<and> (\<forall>x \<in> set pre. P x) \<and> k s' = Some r"
proof (induction s)
  case Nil
  then show ?case by simp
next
  case (Cons c cs)
  show ?case
  proof (cases "k (c # cs) = Some r")
    case True
    then have "c # cs = [] @ (c # cs) \<and> (\<forall>x \<in> set []. P x) \<and> k (c # cs) = Some r" by simp
    then show ?thesis by blast
  next
    case False
    with Cons.prems have "P c" "rx_lazy_star P k cs = Some r"
      by (auto split: if_splits option.splits)
    with Cons.IH obtain pre s' where "cs = pre @ s'" "\<forall>x \<in> set pre. P x" "k s' = Some r" by blast
    with \<open>P c\<close> have "c # cs = (c # pre) @ s' \<and> (\<forall>x \<in> set (c # pre). P x) \<and> k s' = Some r" by simp
    then show ?thesis by blast
  qed
qed

lemma rx_plusD:
  assumes "rx_plus P k s = Some r"
  shows "\<exists>pre s'. s = pre @ s' \<and> (\<forall>x \<in> set pre. P x) \<and> k s' = Some r"
proof -
  from assms obtain c cs where s: "s = c # cs" "P c" "rx_star P k cs = Some r"
    unfolding rx_plus_def by (blast dest: rx_classD)
  from rx_starD [OF s(3)] obtain pre s' where "cs = pre @ s'" "\<forall>x \<in> set pre. P x" "k s' = Some r"
    by blast
  with s have "s = (c # pre) @ s' \<and> (\<forall>x \<in> set (c # pre). P x) \<and> k s' = Some r" by simp
  then show ?thesis by blast
qed

lemma rx_lookD: "rx_look m k s = Some r \<Longrightarrow> k s = Some r"
  by (simp add: rx_look_def split: option.splits)

lemma option_at_shape:
  assumes "option_at s = Some m"
  shows "\<exists>ws c rest. fst m = 0x2022 # ws @ 0x28 # c # 0x29 # rest \<and>
    (\<forall>x \<in> set ws. isWhiteSpace x) \<and> is_a_to_d c \<and> fst (snd m) = [c] \<and> prefix (fst m) s"
proof -
  from assms have "rx_class (\<lambda>c. c = 0x2022) (rx_star isWhiteSpace (rx_class (\<lambda>c. c = 0x28)
       (\<lambda>s1. rx_class is_a_to_d (rx_class (\<lambda>c. c = 0x29) (rx_plus isWhiteSpace
          (\<lambda>s2. rx_lazy_star isDot
             (\<lambda>s3. rx_look (rx_alt option_ahead_rx (rx_alt (rx_lit (js ''Answer:'')) rx_end))
                (\<lambda>_. Some (take (length s - length s3) s, take 1 s1,
                            take (length s2 - length s3) s2)) s3)
             s2))) s1))) s = Some m"
    by (simp only: option_at_def)
  from rx_classD [OF this] obtain t0 where
    s0: "s = 0x2022 # t0" and
    h0: "rx_star isWhiteSpace (rx_class (\<lambda>c. c = 0x28)
       (\<lambda>s1. rx_class is_a_to_d (rx_class (\<lambda>c. c = 0x29) (rx_plus isWhiteSpace
          (\<lambda>s2. rx_lazy_star isDot
             (\<lambda>s3. rx_look (rx_alt option_ahead_rx (rx_alt (rx_lit (js ''Answer:'')) rx_end))
                (\<lambda>_. Some (take (length s - length s3) s, take 1 s1,
                            take (length s2 - length s3) s2)) s3)
             s2))) s1)) t0 = Some m"
    by blast
  from rx_starD [OF h0] obtain ws t1 where
    s1: "t0 = ws @ t1" and ws: "\<forall>x \<in> set ws. isWhiteSpace x" and
    h1: "rx_class (\<lambda>c. c = 0x28)
       (\<lambda>s1. rx_class is_a_to_d (rx_class (\<lambda>c. c = 0x29) (rx_plus isWhiteSpace
          (\<lambda>s2. rx_lazy_star isDot
             (\<lambda>s3. rx_look (rx_alt option_ahead_rx (rx_alt (rx_lit (js ''Answer:'')) rx_end))
                (\<lambda>_. Some (take (length s - length s3) s, take 1 s1,
                            take (length s2 - length s3) s2)) s3)
             s2))) s1) t1 = Some m"
    by blast
  from rx_classD [OF h1] obtain t2 where
    s2: "t1 = 0x28 # t2" and
    h2: "rx_class is_a_to_d (rx_class (\<lambda>c. c = 0x29) (rx_plus isWhiteSpace
          (\<lambda>s2. rx_lazy_star isDot
             (\<lambda>s3. rx_look (rx_alt option_ahead_rx (rx_alt (rx_lit (js ''Answer:'')) rx_end))
                (\<lambda>_. Some (take (length s - length s3) s, take 1 t2,
                            take (length s2 - length s3) s2)) s3)
             s2))) t2 = Some m"
    by blast
  from rx_classD [OF h2] obtain c t3 where
    s3: "t2 = c # t3" and c: "is_a_to_d c" and
    h3: "rx_class (\<lambda>c. c = 0x29) (rx_plus isWhiteSpace
          (\<lambda>s2. rx_lazy_star isDot
             (\<lambda>s3. rx_look (rx_alt option_ahead_rx (rx_alt (rx_lit (js ''Answer:'')) rx_end))
                (\<lambda>_. Some (take (length s - length s3) s, take 1 t2,
                            take (length s2 - length s3) s2)) s3)
             s2)) t3 = Some m"
    by blast
  from rx_classD [OF h3] obtain t4 where
    s4: "t3 = 0x29 # t4" and
    h4: "rx_plus isWhiteSpace
          (\<lambda>s2. rx_lazy_star isDot
             (\<lambda>s3. rx_look (rx_alt option_ahead_rx (rx_alt (rx_lit (js ''Answer:'')) rx_end))
                (\<lambda>_. Some (take (length s - length s3) s, take 1 t2,
                            take (length s2 - length s3) s2)) s3)
             s2) t4 = Some m"
    by blast
  from rx_plusD [OF h4] obtain ws2 t5 where
    s5: "t4 = ws2 @ t5" and
    h5: "rx_lazy_star isDot
             (\<lambda>s3. rx_look (rx_alt option_ahead_rx (rx_alt (rx_lit (js ''Answer:'')) rx_end))
                (\<lambda>_. Some (take (length s - length s3) s, take 1 t2,
                            take (length t5 - length s3) t5)) s3) t5 = Some m"
    by blast
  from rx_lazy_starD [OF h5] obtain tx t6 where
    s6: "t5 = tx @ t6" and
    h6: "rx_look (rx_alt option_ahead_rx (rx_alt (rx_lit (js ''Answer:'')) rx_end))
                (\<lambda>_. Some (take (length s - length t6) s, take 1 t2,
                            take (length t5 - length t6) t5)) t6 = Some m"
    by blast
  from rx_lookD [OF h6] have m: "m = (take (length s - length t6) s, take 1 t2,
                            take (length t5 - length t6) t5)" by simp
  define pre where "pre = 0x2022 # ws @ 0x28 # c # 0x29 # ws2 @ tx"
  have s: "s = pre @ t6"
    using s0 s1 s2 s3 s4 s5 s6 by (simp add: pre_def)
  have "take (length s - length t6) s = pre" unfolding s by simp
  then have f: "fst m = 0x2022 # ws @ 0x28 # c # 0x29 # ws2 @ tx"
    unfolding m fst_conv pre_def .
  have "prefix (fst m) s" unfolding f s pre_def by (rule prefixI) simp
  moreover have "fst (snd m) = [c]" using m s3 by simp
  ultimately show ?thesis using f ws c by blast
qed

lemma dropWhile_all_then:
  "\<forall>x \<in> set ws. P x \<Longrightarrow> \<not> P y \<Longrightarrow> dropWhile P (ws @ y # ys) = y # ys"
  by (induction ws) auto

lemma option_at_captures:
  assumes "option_at s = Some m"
  shows "captures_marker_letter m \<and> prefix (fst m) s \<and> (\<exists>c. fst (snd m) = [c] \<and> is_a_to_d c)"
proof -
  from option_at_shape [OF assms] obtain ws c rest where
    f: "fst m = 0x2022 # ws @ 0x28 # c # 0x29 # rest" and ws: "\<forall>x \<in> set ws. isWhiteSpace x" and
    c: "is_a_to_d c" and l: "fst (snd m) = [c]" and p: "prefix (fst m) s"
    by blast
  have "\<not> isWhiteSpace 0x28" by (simp add: isWhiteSpace_def)
  with ws have "dropWhile isWhiteSpace (ws @ 0x28 # c # 0x29 # rest) = 0x28 # c # 0x29 # rest"
    by (rule dropWhile_all_then)
  then have "captures_marker_letter m"
    using f c l by (simp add: captures_marker_letter_def)
  then show ?thesis using p c l by blast
qed

lemma optionMatches_option_at:
  "m \<in> set (optionMatches s) \<Longrightarrow> \<exists>s'. suffix s' s \<and> option_at s' = Some m"
proof (induction s rule: optionMatches.induct)
  case 1
  then show ?case by simp
next
  case (2 c cs)
  show ?case
  proof (cases "option_at (c # cs)")
    case None
    with 2 obtain s' where "suffix s' cs" "option_at s' = Some m" by auto
    then show ?thesis by (auto intro: suffix_ConsI)
  next
    case (Some m')
    show ?thesis
    proof (cases "m = m'")
      case True
      with Some have "suffix (c # cs) (c # cs) \<and> option_at (c # cs) = Some m" by simp
      then show ?thesis by blast
    next
      case False
      show ?thesis
      proof (cases "0 < length (fst m') \<and> length (fst m') \<le> Suc (length cs)")
        case True
        with 2(2,4) Some False obtain s' where
          "suffix s' (drop (length (fst m')) (c # cs))" "option_at s' = Some m"
          by auto
        moreover have "suffix (drop (length (fst m')) (c # cs)) (c # cs)" by (rule suffix_drop)
        ultimately show ?thesis by (blast intro: suffix_order.trans)
      next
        case F: False
        with 2(3,4) Some False obtain s' where "suffix s' cs" "option_at s' = Some m" by auto
        then show ?thesis by (auto intro: suffix_ConsI)
      qed
    qed
  qed
qed


lemma line_role_marks:
  "line_role (question_mark @ t) = Some Question"
  "line_role (option_mark @ t) = Some Opt"
  "line_role (answer_mark @ t) = Some Answer"
  "line_role (explanation_mark @ t) = Some Explanation"
  "line_role (plain_mark @ t) = Some Plain"
  by (simp_all add: line_role_def question_mark_def option_mark_def answer_mark_def
      explanation_mark_def plain_mark_def)

lemma line_text_marks:
  "line_text (question_mark @ t) = t"
  "line_text (option_mark @ t) = t"
  "line_text (answer_mark @ t) = t"
  "line_text (explanation_mark @ t) = t"
  "line_text (plain_mark @ t) = t"
  by (simp_all add: line_text_def line_role_marks)
    (simp_all add: question_mark_def option_mark_def answer_mark_def
      explanation_mark_def plain_mark_def)

lemma keeps_letter_pushed:
  "is_a_to_d c \<Longrightarrow> keeps_letter (option_mark @ js ''('' @ [c] @ js '') '' @ t)"
  by (simp add: keeps_letter_def line_text_marks js_def)

lemma questionMatch_prefix:
  assumes "questionMatch s = Some m"
  shows "\<exists>k. fst m = take k s"
proof -
  from assms have "rx_plus isDigit (rx_class (\<lambda>c. c = 0x2E) (rx_plus isWhiteSpace
       (\<lambda>s2. rx_lazy_star isDot
          (\<lambda>s3. rx_look (rx_alt option_ahead_rx rx_end)
             (\<lambda>_. Some (take (length s - length s3) s, take (length s2 - length s3) s2)) s3)
          s2))) s = Some m"
    by (simp only: questionMatch_def)
  from rx_plusD [OF this] obtain t1 where
    "rx_class (\<lambda>c. c = 0x2E) (rx_plus isWhiteSpace
       (\<lambda>s2. rx_lazy_star isDot
          (\<lambda>s3. rx_look (rx_alt option_ahead_rx rx_end)
             (\<lambda>_. Some (take (length s - length s3) s, take (length s2 - length s3) s2)) s3)
          s2)) t1 = Some m"
    by blast
  from rx_classD [OF this] obtain t2 where
    "rx_plus isWhiteSpace
       (\<lambda>s2. rx_lazy_star isDot
          (\<lambda>s3. rx_look (rx_alt option_ahead_rx rx_end)
             (\<lambda>_. Some (take (length s - length s3) s, take (length s2 - length s3) s2)) s3)
          s2) t2 = Some m"
    by blast
  from rx_plusD [OF this] obtain t3 where
    "rx_lazy_star isDot
          (\<lambda>s3. rx_look (rx_alt option_ahead_rx rx_end)
             (\<lambda>_. Some (take (length s - length s3) s, take (length t3 - length s3) t3)) s3)
          t3 = Some m"
    by blast
  from rx_lazy_starD [OF this] obtain t4 where
    "rx_look (rx_alt option_ahead_rx rx_end)
             (\<lambda>_. Some (take (length s - length t4) s, take (length t3 - length t4) t3)) t4 = Some m"
    by blast
  from rx_lookD [OF this] have "fst m = take (length s - length t4) s" by auto
  then show ?thesis ..
qed

lemma js_replace_first_take: "js_replace_first (take k s) s = drop k s"
  by (cases s) (simp_all add: min_def)

lemma sublist_chain:
  assumes "sublist xs ys" and "sublist ys zs"
  shows "sublist xs zs"
proof -
  from assms obtain a b c d where "ys = a @ xs @ b" "zs = c @ ys @ d"
    by (auto simp: sublist_def)
  then have "zs = (c @ a) @ xs @ (b @ d)" by simp
  then show ?thesis unfolding sublist_def by blast
qed

lemma sublist_js_trim: "sublist (js_trim s) s"
proof -
  have "sublist (dropWhile isWhiteSpace (rev (dropWhile isWhiteSpace s))) (rev (dropWhile isWhiteSpace s))"
    by (rule sublist_dropWhile)
  then have "sublist (js_trim s) (dropWhile isWhiteSpace s)"
    by (simp add: js_trim_def sublist_rev_left)
  moreover have "sublist (dropWhile isWhiteSpace s) s" by (rule sublist_dropWhile)
  ultimately show ?thesis by (rule sublist_chain)
qed

lemma sublist_after_question: "sublist (after_question block) block"
proof (cases "questionMatch (js_trim block)")
  case None
  then show ?thesis by (simp add: after_question_def sublist_js_trim)
next
  case (Some m)
  from questionMatch_prefix [OF Some] obtain k where "fst m = take k (js_trim block)" ..
  then have "after_question block = js_trim (drop k (js_trim block))"
    using Some by (simp add: after_question_def js_replace_first_take)
  moreover have "sublist (js_trim (drop k (js_trim block))) (drop k (js_trim block))"
    by (rule sublist_js_trim)
  moreover have "sublist (drop k (js_trim block)) (js_trim block)" by (rule sublist_drop)
  ultimately show ?thesis
    using sublist_js_trim [of block] by (metis sublist_chain)
qed

lemma concat_split_before: "concat (split_before cur s) = cur @ s"
  by (induction s arbitrary: cur) simp_all

lemma sublist_concat_member: "xs \<in> set xss \<Longrightarrow> sublist xs (concat xss)"
proof -
  assume "xs \<in> set xss"
  then obtain a b where "xss = a @ xs # b" by (auto dest: split_list)
  then have "concat xss = concat a @ xs @ concat b" by simp
  then show ?thesis by (metis sublist_appendI)
qed

lemma sublist_block: "block \<in> set (js_split_blocks text) \<Longrightarrow> sublist block text"
  using sublist_concat_member [of block "split_before [] text"]
  by (simp add: js_split_blocks_def concat_split_before)

lemma option_match_facts:
  assumes "block \<in> set (js_split_blocks text)" and "m \<in> set (optionMatches (after_question block))"
  shows "captures_marker_letter m \<and> sublist (fst m) text \<and> (\<exists>c. fst (snd m) = [c] \<and> is_a_to_d c)"
proof -
  from optionMatches_option_at [OF assms(2)] obtain s' where
    s': "suffix s' (after_question block)" and at: "option_at s' = Some m" by blast
  from option_at_captures [OF at] have
    c: "captures_marker_letter m" and p: "prefix (fst m) s'" and l: "\<exists>c. fst (snd m) = [c] \<and> is_a_to_d c"
    by blast+
  have "sublist (fst m) s'" using p by (rule prefix_imp_sublist)
  moreover have "sublist s' (after_question block)" using s' by (rule suffix_imp_sublist)
  moreover note sublist_after_question [of block] sublist_block [OF assms(1)]
  ultimately have "sublist (fst m) text" by (metis sublist_chain)
  with c l show ?thesis by blast
qed

lemma option_step_ok:
  assumes "option_lines_from text (fst st)" and "block \<in> set (js_split_blocks text)"
    and "m \<in> set (optionMatches (after_question block))"
  shows "option_lines_from text (fst (option_step st m))"
proof -
  from option_match_facts [OF assms(2,3)] obtain c where
    cap: "captures_marker_letter m" and sub: "sublist (fst m) text" and
    l: "fst (snd m) = [c]" and c: "is_a_to_d c"
    by blast
  let ?l = "option_mark @ js ''('' @ fst (snd m) @ js '') '' @ js_trim (snd (snd m))"
  have "keeps_letter ?l" using keeps_letter_pushed [OF c] l by simp
  moreover have "option_line_of text ?l"
    unfolding option_line_of_def using assms(2,3) cap sub by (auto simp: line_text_marks)
  ultimately show ?thesis
    using assms(1) by (simp add: option_step_def Let_def option_lines_from_def)
qed

lemma foldl_option_step_ok:
  assumes "option_lines_from text (fst st)" and "block \<in> set (js_split_blocks text)"
    and "set ms \<subseteq> set (optionMatches (after_question block))"
  shows "option_lines_from text (fst (foldl option_step st ms))"
  using assms(1,3)
proof (induction ms arbitrary: st)
  case Nil
  then show ?case by simp
next
  case (Cons m ms)
  from Cons.prems(2) have "m \<in> set (optionMatches (after_question block))" by simp
  with Cons.prems(1) assms(2) have "option_lines_from text (fst (option_step st m))"
    by (rule option_step_ok)
  with Cons.IH Cons.prems(2) show ?case by simp
qed

lemma process_block_ok:
  assumes "option_lines_from text lines" and "block \<in> set (js_split_blocks text)"
  shows "option_lines_from text (process_block lines block)"
proof -
  define st0 where "st0 = (case questionMatch (js_trim block) of
                  None \<Rightarrow> (lines, js_trim block)
                | Some m \<Rightarrow>
                    (let questionText = js_trim (snd m)
                     in (if questionText \<noteq> [] then lines @ [question_mark @ questionText]
                         else lines,
                         js_trim (js_replace_first (fst m) (js_trim block)))))"
  have ok0: "option_lines_from text (fst st0)"
    using assms(1)
    by (simp add: st0_def option_lines_from_def line_role_marks Let_def split: option.splits)
  have rem0: "snd st0 = after_question block"
    by (simp add: st0_def after_question_def Let_def split: option.splits)
  define st1 where "st1 = foldl option_step st0 (optionMatches (snd st0))"
  have ok1: "option_lines_from text (fst st1)"
    unfolding st1_def using ok0 assms(2) by (rule foldl_option_step_ok) (simp add: rem0)
  have "process_block lines block =
      (case answerMatch (snd st1) of
           None \<Rightarrow> fst st1
         | Some a \<Rightarrow>
             (let answerText = js_trim a
              in if answerText \<noteq> [] then fst st1 @ [answer_mark @ js ''Answer: '' @ answerText]
                 else fst st1))"
    unfolding process_block_def st1_def st0_def Let_def ..
  then show ?thesis
    using ok1 by (simp add: option_lines_from_def line_role_marks Let_def split: option.splits)
qed

lemma foldl_process_block_ok:
  "option_lines_from text lines \<Longrightarrow> set blocks \<subseteq> set (js_split_blocks text) \<Longrightarrow>
   option_lines_from text (foldl process_block lines blocks)"
  by (induction blocks arbitrary: lines) (simp_all add: process_block_ok)

lemma parseQuizText_blocks_ok: "option_lines_from text (parseQuizText_blocks text)"
  unfolding parseQuizText_blocks_def Let_def
  by (rule foldl_process_block_ok) (simp_all add: option_lines_from_def)

lemma classify_chunk_option:
  assumes "l \<in> set (classify_chunk [] chunk)" and "line_role l = Some Opt"
  shows "line_text l = replace_whitespace_runs (js_trim chunk) \<and> rx_test option_rx (line_text l)"
  using assms
  by (auto simp: classify_chunk_def Let_def line_role_marks line_text_marks split: if_splits)

lemma foldl_classify_chunk_mem:
  "l \<in> set (foldl classify_chunk lines chunks) \<Longrightarrow>
   l \<in> set lines \<or> (\<exists>chunk \<in> set chunks. l \<in> set (classify_chunk [] chunk))"
proof (induction chunks arbitrary: lines)
  case Nil
  then show ?case by simp
next
  case (Cons chunk chunks)
  from Cons.prems have "l \<in> set (foldl classify_chunk (classify_chunk lines chunk) chunks)" by simp
  from Cons.IH [OF this] show ?case
    using classify_chunk_append [of lines chunk] by auto
qed

text \<open>
  Claim C2, with the marker as the code emits it. The text of an option line keeps the
  option marker. In EditorScreen.tsx the text is the whole normalised chunk, so the
  option pattern (bullet, bracket, letter, closing character) matches at its start. In
  part_001 the bullet is dropped and the text starts with the captured letter a to d in
  parentheses and a space: the line comes from a match of the option pattern in a block
  of the text, the matched text stands in the input and starts with the bullet and the
  parenthesised letter, and the text of the line is that same letter in parentheses, a
  space, and the trimmed text of the match.
\<close>

theorem option_lines_keep_marker:
  "(\<forall>l \<in> set (fst (parseQuizText text console)). line_role l = Some Opt \<longrightarrow>
      rx_test option_rx (line_text l) \<and>
      line_text l \<in> set (map (\<lambda>chunk. replace_whitespace_runs (js_trim chunk)) (js_split_newlines text))) \<and>
   (\<forall>l \<in> set (parseQuizText_blocks text). line_role l = Some Opt \<longrightarrow>
      keeps_letter l \<and>
      (\<exists>block \<in> set (js_split_blocks text). \<exists>m \<in> set (optionMatches (after_question block)).
         captures_marker_letter m \<and> sublist (fst m) text \<and>
         line_text l = js ''('' @ fst (snd m) @ js '') '' @ js_trim (snd (snd m))))"
proof (intro conjI ballI impI)
  fix l assume l: "l \<in> set (fst (parseQuizText text console))" and r: "line_role l = Some Opt"
  from l have "l \<in> set (foldl classify_chunk []
      (filter (\<lambda>chunk. 5 < length (js_trim chunk)) (js_split_newlines text)))"
    by (simp add: parseQuizText_def Let_def)
  from foldl_classify_chunk_mem [OF this] obtain chunk where
    c: "chunk \<in> set (js_split_newlines text)" and m: "l \<in> set (classify_chunk [] chunk)"
    by auto
  from classify_chunk_option [OF m r] show "rx_test option_rx (line_text l)" by (rule conjunct2)
  from classify_chunk_option [OF m r] c
  show "line_text l \<in> set (map (\<lambda>chunk. replace_whitespace_runs (js_trim chunk)) (js_split_newlines text))"
    by auto
next
  fix l assume "l \<in> set (parseQuizText_blocks text)" and "line_role l = Some Opt"
  then have "keeps_letter l \<and> option_line_of text l"
    using parseQuizText_blocks_ok [of "text"] by (auto simp: option_lines_from_def list_all_iff)
  then show "keeps_letter l"
    and "\<exists>block \<in> set (js_split_blocks text). \<exists>m \<in> set (optionMatches (after_question block)).
         captures_marker_letter m \<and> sublist (fst m) text \<and>
         line_text l = js ''('' @ fst (snd m) @ js '') '' @ js_trim (snd (snd m))"
    by (simp_all add: option_line_of_def)
qed


lemma scenario_blocks:
  "parseQuizText_blocks scenario_text =
     [question_mark @ js ''What is 2+2?'', option_mark @ js ''(a) 3'', option_mark @ js ''(b) 4'',
      option_mark @ js ''(c) 5'', option_mark @ js ''(d) 6'', answer_mark @ js ''Answer: b'']"
  by code_simp

lemma scenario_chunks: "fst (parseQuizText scenario_text []) = [question_mark @ scenario_text]"
  by code_simp

lemma fragments_simps:
  "fragments [] = []"
  "fragments (l # ls) = (line_role l, line_text l) # fragments ls"
  by (simp_all add: fragments_def)

text \<open>
  Claim C9 as stated fails: neither classifier gives the six fragments of the
  specification for the scenario text.
\<close>

theorem scenario_fragments_counterexample:
  "fragments (parseQuizText_blocks scenario_text) \<noteq> scenario_fragments_spec \<and>
   fragments (fst (parseQuizText scenario_text [])) \<noteq> scenario_fragments_spec"
  by (simp add: scenario_blocks scenario_chunks fragments_simps line_role_marks line_text_marks
      scenario_fragments_spec_def js_def)

text \<open>
  Claim C9, with the fragments as the code emits them. For the scenario text the
  classifier of part_001 gives six fragments in this order: the question \<open>What is 2+2?\<close>, the options \<open>(a) 3\<close>, \<open>(b) 4\<close>,
  \<open>(c) 5\<close>, \<open>(d) 6\<close> with their letters, and the answer \<open>Answer: b\<close> with its label. The
  classifier of EditorScreen.tsx gives one question fragment, the whole text, which has
  no line feed. After the stem, the four option texts 3, 4, 5, 6 and the answer B have
  been assigned, the guard holds and \<open>addQuestion\<close> commits the record with number 1.
\<close>

theorem scenario_classified_and_committed:
  "fragments (parseQuizText_blocks scenario_text) =
     [(Some Question, js ''What is 2+2?''), (Some Opt, js ''(a) 3''), (Some Opt, js ''(b) 4''),
      (Some Opt, js ''(c) 5''), (Some Opt, js ''(d) 6''), (Some Answer, js ''Answer: b'')] \<and>
   fragments (fst (parseQuizText scenario_text [])) = [(Some Question, scenario_text)] \<and>
   assign_draft (js ''What is 2+2?'') (js ''3'') (js ''4'') (js ''5'') (js ''6'') (js ''B'')
     initial_engine = Some scenario_engine \<and>
   canCommit (currentQuestion scenario_engine) \<and>
   questionsArray (snd (addQuestion scenario_engine)) =
     [\<lparr>questionNumber = 1, questionText = js ''What is 2+2?'', question_images = [],
       option_with_images = [js ''3'', js ''4'', js ''5'', js ''6''],
       correct_answer = js ''B''\<rparr>]"
proof -
  have "fragments (parseQuizText_blocks scenario_text) =
     [(Some Question, js ''What is 2+2?''), (Some Opt, js ''(a) 3''), (Some Opt, js ''(b) 4''),
      (Some Opt, js ''(c) 5''), (Some Opt, js ''(d) 6''), (Some Answer, js ''Answer: b'')]"
    by (simp add: scenario_blocks fragments_simps line_role_marks line_text_marks)
  moreover have "fragments (fst (parseQuizText scenario_text [])) = [(Some Question, scenario_text)]"
    by (simp add: scenario_chunks fragments_simps line_role_marks line_text_marks)
  moreover have "questionsArray (snd (addQuestion scenario_engine)) =
     [\<lparr>questionNumber = 1, questionText = js ''What is 2+2?'', question_images = [],
       option_with_images = [js ''3'', js ''4'', js ''5'', js ''6''],
       correct_answer = js ''B''\<rparr>]"
    using canCommit_scenario_engine by (simp add: addQuestion_def) (simp add: scenario_engine_def)
  ultimately show ?thesis using assign_scenario canCommit_scenario_engine by simp
qed

lemma apples_chunks:
  "fst (parseQuizText (js ''(a) 3 apples'') []) = [option_mark @ js ''(a) 3 apples'']"
  by code_simp

lemma apples_blocks:
  "parseQuizText_blocks (0x2022 # js '' (a) 3 apples'') = [option_mark @ js ''(a) 3 apples'']"
  by code_simp

text \<open>
  Claim C2 as stated fails: the chunk \<open>(a) 3 apples\<close> gives, in both classifiers, an
  option line whose text is \<open>(a) 3 apples\<close>, the marker \<open>(a)\<close> included.
\<close>

theorem option_marker_kept_counterexample:
  "fst (parseQuizText (js ''(a) 3 apples'') []) = [option_mark @ js ''(a) 3 apples''] \<and>
   parseQuizText_blocks (0x2022 # js '' (a) 3 apples'') = [option_mark @ js ''(a) 3 apples''] \<and>
   line_role (option_mark @ js ''(a) 3 apples'') = Some Opt \<and>
   js_includes (line_text (option_mark @ js ''(a) 3 apples'')) (js ''(a)'')"
  by (simp add: apples_chunks apples_blocks line_role_marks line_text_marks) (simp add: js_def)

lemma apples_match:
  "optionMatches (after_question (0x2022 # js '' (a) 3 apples'')) =
     [(0x2022 # js '' (a) 3 apples'', js ''a'', js ''3 apples'')]"
  by code_simp

theorem option_lines_keep_marker_witness:
  "option_mark @ js ''(a) 3 apples'' \<in> set (fst (parseQuizText (js ''(a) 3 apples'') [])) \<and>
   option_mark @ js ''(a) 3 apples'' \<in> set (parseQuizText_blocks (0x2022 # js '' (a) 3 apples'')) \<and>
   line_role (option_mark @ js ''(a) 3 apples'') = Some Opt \<and>
   rx_test option_rx (line_text (option_mark @ js ''(a) 3 apples'')) \<and>
   keeps_letter (option_mark @ js ''(a) 3 apples'') \<and>
   optionMatches (after_question (0x2022 # js '' (a) 3 apples'')) =
     [(0x2022 # js '' (a) 3 apples'', js ''a'', js ''3 apples'')] \<and>
   captures_marker_letter (0x2022 # js '' (a) 3 apples'', js ''a'', js ''3 apples'')"
proof -
  have r: "line_role (option_mark @ js ''(a) 3 apples'') = Some Opt" by (rule line_role_marks)
  have "rx_test option_rx (line_text (option_mark @ js ''(a) 3 apples''))"
    using option_lines_keep_marker [of "js ''(a) 3 apples''" "[]"] r by (simp add: apples_chunks)
  moreover have "keeps_letter (option_mark @ js ''(a) 3 apples'')"
    using option_lines_keep_marker [of "0x2022 # js '' (a) 3 apples''" "[]"] r
    by (simp add: apples_blocks)
  moreover have "captures_marker_letter (0x2022 # js '' (a) 3 apples'', js ''a'', js ''3 apples'')"
    by code_simp
  ultimately show ?thesis using r by (simp add: apples_chunks apples_blocks apples_match)
qed

end
